theory Spec2Isabelle
  imports Complex_Main
begin

section \<open>Airport reference data (airport\_reference.py)\<close>

text \<open>
  Python floats are modelled as real numbers: every arithmetic operation is the exact one,
  and \<open>float('inf')\<close>, the only non-finite value the code creates, gets a constructor of its
  own further down. Rounding, \<open>nan\<close> and infinite coordinates have no counterpart here, so
  nothing below speaks about the last bits of a computed distance. Strings are lists of
  ASCII characters.
\<close>

record Airport =
  iata :: string
  name :: string
  city :: string
  state :: string
  latitude :: real
  longitude :: real
  metro_area :: string

definition en_dash :: string where
  \<comment> \<open>the UTF-8 bytes of the dash in two of the metro area labels\<close>
  "en_dash = [CHR 0xE2, CHR 0x80, CHR 0x93]"

definition mk_airport ::
  "string \<Rightarrow> string \<Rightarrow> string \<Rightarrow> string \<Rightarrow> real \<Rightarrow> real \<Rightarrow> string \<Rightarrow> Airport" where
  \<comment> \<open>\<open>Airport.__init__\<close>\<close>
  "mk_airport i n c s la lo m =
     \<lparr>iata = i, name = n, city = c, state = s, latitude = la, longitude = lo, metro_area = m\<rparr>"

definition AIRPORTS_items :: "(string \<times> Airport) list" where
  "AIRPORTS_items =
   [(''ATL'', mk_airport ''ATL'' ''Hartsfield-Jackson Atlanta International Airport''
        ''Atlanta'' ''GA'' 33.6407 (- 84.4277) ''Metro Atlanta''),
    (''DFW'', mk_airport ''DFW'' ''Dallas/Fort Worth International Airport''
        ''Dallas and Fort Worth'' ''TX'' 32.8998 (- 97.0403) (''Dallas'' @ en_dash @ ''Fort Worth'')),
    (''DEN'', mk_airport ''DEN'' ''Denver International Airport''
        ''Denver'' ''CO'' 39.8561 (- 104.6737) ''Greater Denver''),
    (''ORD'', mk_airport ''ORD'' (''O'' @ [CHR 0x27] @ ''Hare International Airport'')
        ''Chicago'' ''IL'' 41.9786 (- 87.9048) ''Chicagoland''),
    (''LAX'', mk_airport ''LAX'' ''Los Angeles International Airport''
        ''Los Angeles'' ''CA'' 33.9425 (- 118.4081) ''Greater Los Angeles''),
    (''JFK'', mk_airport ''JFK'' ''John F. Kennedy International Airport''
        ''New York City'' ''NY'' 40.6413 (- 73.7781) ''New York Metro''),
    (''CLT'', mk_airport ''CLT'' ''Charlotte Douglas International Airport''
        ''Charlotte'' ''NC'' 35.2144 (- 80.9473) ''Greater Charlotte''),
    (''LAS'', mk_airport ''LAS'' ''Harry Reid International Airport''
        ''Las Vegas'' ''NV'' 36.0840 (- 115.1537) ''Las Vegas Valley''),
    (''MCO'', mk_airport ''MCO'' ''Orlando International Airport''
        ''Orlando'' ''FL'' 28.4312 (- 81.3083) ''Greater Orlando''),
    (''MIA'', mk_airport ''MIA'' ''Miami International Airport''
        ''Miami'' ''FL'' 25.7959 (- 80.2870) ''Miami Metro''),
    (''PHX'', mk_airport ''PHX'' ''Phoenix Sky Harbor International Airport''
        ''Phoenix'' ''AZ'' 33.4342 (- 112.0116) ''Metro Phoenix''),
    (''SEA'', mk_airport ''SEA'' ''Seattle-Tacoma International Airport''
        ''Seattle and Tacoma'' ''WA'' 47.4502 (- 122.3088) ''Seattle Metro''),
    (''SFO'', mk_airport ''SFO'' ''San Francisco International Airport''
        ''San Francisco'' ''CA'' 37.6213 (- 122.3790) ''San Francisco Bay Area''),
    (''EWR'', mk_airport ''EWR'' ''Newark Liberty International Airport''
        ''Newark and New York City'' ''NJ'' 40.6895 (- 74.1745) ''New York Metro''),
    (''IAH'', mk_airport ''IAH'' ''George Bush Intercontinental Airport''
        ''Houston'' ''TX'' 29.9844 (- 95.3414) ''Greater Houston''),
    (''BOS'', mk_airport ''BOS'' ''Logan International Airport''
        ''Boston'' ''MA'' 42.3656 (- 71.0096) ''Greater Boston''),
    (''MSP'', mk_airport ''MSP'' ''Minneapolis-Saint Paul International Airport''
        ''Minneapolis and Saint Paul'' ''MN'' 44.8848 (- 93.2223)
        (''Minneapolis'' @ en_dash @ ''Saint Paul'')),
    (''FLL'', mk_airport ''FLL'' ''Fort Lauderdale-Hollywood International Airport''
        ''Fort Lauderdale and Hollywood'' ''FL'' 26.0712 (- 80.1528) ''Miami Metro''),
    (''LGA'', mk_airport ''LGA'' ''LaGuardia Airport''
        ''New York City'' ''NY'' 40.7769 (- 73.8740) ''New York Metro''),
    (''DTW'', mk_airport ''DTW'' ''Detroit Metropolitan Airport''
        ''Detroit'' ''MI'' 42.2162 (- 83.3554) ''Detroit Metro''),
    (''PHL'', mk_airport ''PHL'' ''Philadelphia International Airport''
        ''Philadelphia'' ''PA'' 39.8719 (- 75.2411) ''Philadelphia Metro''),
    (''SLC'', mk_airport ''SLC'' ''Salt Lake City International Airport''
        ''Salt Lake City'' ''UT'' 40.7899 (- 111.9791) ''Wasatch Front''),
    (''BWI'', mk_airport ''BWI'' ''Baltimore-Washington International Airport''
        ''Baltimore and Washington, D.C.'' ''MD'' 39.1774 (- 76.6684)
        ''Baltimore metropolitan area''),
    (''IAD'', mk_airport ''IAD'' ''Dulles International Airport''
        ''Washington, D.C.'' ''VA'' 38.9531 (- 77.4565) ''Washington Metro''),
    (''SAN'', mk_airport ''SAN'' ''San Diego International Airport''
        ''San Diego'' ''CA'' 32.7338 (- 117.1933) ''Greater San Diego''),
    (''DCA'', mk_airport ''DCA'' ''Ronald Reagan Washington National Airport''
        ''Washington, D.C.'' ''VA'' 38.8512 (- 77.0402) ''Washington Metro''),
    (''TPA'', mk_airport ''TPA'' ''Tampa International Airport''
        ''Tampa'' ''FL'' 27.9755 (- 82.5332) ''Tampa Bay area''),
    (''BNA'', mk_airport ''BNA'' ''Nashville International Airport''
        ''Nashville'' ''TN'' 36.1263 (- 86.6774) ''Greater Nashville''),
    (''AUS'', mk_airport ''AUS'' ''Austin-Bergstrom International Airport''
        ''Austin'' ''TX'' 30.1945 (- 97.6699) ''Greater Austin''),
    (''HNL'', mk_airport ''HNL'' ''Daniel K. Inouye International Airport''
        ''Honolulu'' ''HI'' 21.3206 (- 157.9242) ''Oahu''),
    (''CDG'', mk_airport ''CDG'' ''Charles de Gaulle Airport''
        ''Paris'' ''France'' 49.0097 2.5479 ''Paris Metropolitan Area'')]"

definition AIRPORTS :: "string \<rightharpoonup> Airport" where
  "AIRPORTS = map_of AIRPORTS_items"

definition upper_char :: "char \<Rightarrow> char" where
  "upper_char c =
     (case map_of (zip ''abcdefghijklmnopqrstuvwxyz'' ''ABCDEFGHIJKLMNOPQRSTUVWXYZ'') c of
        Some u \<Rightarrow> u | None \<Rightarrow> c)"

definition lower_char :: "char \<Rightarrow> char" where
  "lower_char c =
     (case map_of (zip ''ABCDEFGHIJKLMNOPQRSTUVWXYZ'' ''abcdefghijklmnopqrstuvwxyz'') c of
        Some l \<Rightarrow> l | None \<Rightarrow> c)"

definition upper :: "string \<Rightarrow> string" where
  \<comment> \<open>\<open>str.upper\<close> on ASCII text\<close>
  "upper s = map upper_char s"

definition lower :: "string \<Rightarrow> string" where
  \<comment> \<open>\<open>str.lower\<close> on ASCII text\<close>
  "lower s = map lower_char s"

definition get_airport :: "string \<Rightarrow> Airport option" where
  "get_airport code = AIRPORTS (upper code)"

definition radians :: "real \<Rightarrow> real" where
  \<comment> \<open>\<open>math.radians\<close>\<close>
  "radians deg = deg * pi / 180"

definition haversine_a :: "real \<Rightarrow> real \<Rightarrow> real \<Rightarrow> real \<Rightarrow> real" where
  \<comment> \<open>the intermediate term \<open>a\<close> of \<open>haversine_distance\<close>, as the real number the expression
      denotes; the rounding of the source's double-precision operations is not modelled\<close>
  "haversine_a lat1 lon1 lat2 lon2 =
     (let lat1_rad = radians lat1; lon1_rad = radians lon1;
          lat2_rad = radians lat2; lon2_rad = radians lon2;
          dlat = lat2_rad - lat1_rad; dlon = lon2_rad - lon1_rad
      in (sin (dlat / 2))\<^sup>2 + cos lat1_rad * cos lat2_rad * (sin (dlon / 2))\<^sup>2)"

definition haversine_distance :: "real \<Rightarrow> real \<Rightarrow> real \<Rightarrow> real \<Rightarrow> real" where
  \<comment> \<open>in exact real arithmetic, where the argument of the square root is in [0, 1]
      (\<open>haversine_a_nonneg\<close>, \<open>haversine_a_le_one\<close>) and \<open>sqrt\<close> and \<open>arcsin\<close> are the functions
      \<open>math.sqrt\<close> and \<open>math.asin\<close> compute\<close>
  "haversine_distance lat1 lon1 lat2 lon2 =
     (let R = 3958.8;
          a = haversine_a lat1 lon1 lat2 lon2;
          c = 2 * arcsin (sqrt a)
      in R * c)"

definition get_distance :: "string \<Rightarrow> string \<Rightarrow> string \<Rightarrow> real option" where
  "get_distance iata1 iata2 unit =
     (case get_airport iata1 of
        None \<Rightarrow> None
      | Some airport1 \<Rightarrow>
          (case get_airport iata2 of
             None \<Rightarrow> None
           | Some airport2 \<Rightarrow>
               (let distance_miles =
                      haversine_distance (latitude airport1) (longitude airport1)
                                         (latitude airport2) (longitude airport2)
                in if lower unit = ''kilometers'' \<or> lower unit = ''km''
                   then Some (distance_miles * 1.60934)
                   else Some distance_miles)))"

section \<open>Flight network generator (flight\_network.py)\<close>

definition US_AIRPORTS :: "string list" where
  "US_AIRPORTS =
     [''ATL'', ''DFW'', ''DEN'', ''ORD'', ''LAX'', ''JFK'', ''CLT'', ''LAS'', ''MCO'', ''MIA'',
      ''PHX'', ''SEA'', ''SFO'', ''EWR'', ''IAH'', ''BOS'', ''MSP'', ''FLL'', ''LGA'', ''DTW'',
      ''PHL'', ''SLC'', ''BWI'', ''IAD'', ''SAN'', ''DCA'', ''TPA'', ''BNA'', ''AUS'', ''HNL'']"

definition MAJOR_HUBS :: "string list" where
  "MAJOR_HUBS = [''ATL'', ''DFW'', ''DEN'', ''ORD'']"

record Flight =
  origin :: string
  destination :: string
  distance :: real
  is_direct :: bool
  via_hub :: "string option"

definition direct_flight :: "string \<Rightarrow> string \<Rightarrow> real \<Rightarrow> Flight" where
  \<comment> \<open>\<open>Flight(o, d, dist, is_direct=True)\<close>; \<open>via_hub\<close> keeps its default \<open>None\<close>\<close>
  "direct_flight orig dest miles =
     \<lparr>origin = orig, destination = dest, distance = miles, is_direct = True, via_hub = None\<rparr>"

text \<open>
  The functions of flight\_network.py reach the catalog only through \<open>get_distance\<close> with
  the default unit. The model passes that function as the argument \<open>gd\<close>; the program is
  the instance \<open>gd = get_distance_miles\<close>. The generator's two module-level lists are
  arguments of the loops in the same way, and \<open>generate_flight_network\<close> is the instance
  at \<open>US_AIRPORTS\<close> and \<open>MAJOR_HUBS\<close>.
\<close>

type_synonym distance_fn = "string \<Rightarrow> string \<Rightarrow> real option"

definition get_distance_miles :: distance_fn where
  "get_distance_miles iata1 iata2 = get_distance iata1 iata2 ''miles''"

text \<open>
  The guards \<open>if distance and ...\<close> test the truth value of an \<open>Optional[float]\<close>, which is
  false for \<open>None\<close> and for \<open>0.0\<close>: in the model a \<open>case\<close> on the option with the test
  \<open>d \<noteq> 0\<close> in the \<open>Some\<close> branch.
\<close>

datatype xfloat = Finite real | Infinity

fun float_less :: "real \<Rightarrow> xfloat \<Rightarrow> bool" where
  \<comment> \<open>\<open>x < m\<close> for a finite \<open>x\<close>\<close>
  "float_less x (Finite m) = (x < m)"
| "float_less x Infinity = True"

fun float_positive :: "xfloat \<Rightarrow> bool" where
  \<comment> \<open>\<open>m > 0\<close>\<close>
  "float_positive (Finite m) = (0 < m)"
| "float_positive Infinity = True"

fun float_div :: "real \<Rightarrow> xfloat \<Rightarrow> real" where
  \<comment> \<open>\<open>x / m\<close> for a finite \<open>x\<close> and \<open>m > 0\<close>; a finite number over infinity is \<open>0.0\<close>\<close>
  "float_div x (Finite m) = x / m"
| "float_div x Infinity = 0"

definition hub_step ::
  "distance_fn \<Rightarrow> string \<Rightarrow> string \<Rightarrow> string \<Rightarrow> xfloat \<times> string option
     \<Rightarrow> xfloat \<times> string option" where
  \<comment> \<open>one iteration of the loop of \<open>calculate_minimum_distance_through_hubs\<close> on
      \<open>(min_distance, best_hub)\<close>\<close>
  "hub_step gd orig dest hub acc =
     (if hub = orig \<or> hub = dest then acc
      else case (gd orig hub, gd hub dest) of
             (Some dist1, Some dist2) \<Rightarrow>
               if dist1 \<noteq> 0 \<and> dist2 \<noteq> 0
               then (let total_distance = dist1 + dist2
                     in if float_less total_distance (fst acc)
                        then (Finite total_distance, Some hub)
                        else acc)
               else acc
           | _ \<Rightarrow> acc)"

definition calculate_minimum_distance_through_hubs ::
  "distance_fn \<Rightarrow> string \<Rightarrow> string \<Rightarrow> string list \<Rightarrow> xfloat \<times> string option" where
  "calculate_minimum_distance_through_hubs gd orig dest hubs =
     fold (hub_step gd orig dest) hubs (Infinity, None)"

definition should_create_direct_flight ::
  "distance_fn \<Rightarrow> string \<Rightarrow> string \<Rightarrow> real \<Rightarrow> string list \<Rightarrow> bool" where
  "should_create_direct_flight gd orig dest direct_distance hubs =
     (if direct_distance < 150 then False
      else let hub_distance = fst (calculate_minimum_distance_through_hubs gd orig dest hubs)
           in if direct_distance < 1000 then True
              else let efficiency_ratio =
                         (if float_positive hub_distance
                          then float_div direct_distance hub_distance else 1.0)
                   in efficiency_ratio \<le> 0.85)"

record gen_state =
  flights :: "Flight list"
  processed_pairs :: "(string \<times> string) set"

definition hub_pair_step :: "distance_fn \<Rightarrow> string \<Rightarrow> string \<Rightarrow> gen_state \<Rightarrow> gen_state" where
  \<comment> \<open>body of the inner loop of pass 1\<close>
  "hub_pair_step gd hub1 hub2 s =
     (case gd hub1 hub2 of
        None \<Rightarrow> s
      | Some d \<Rightarrow>
          if d \<noteq> 0 \<and> d \<ge> 150
          then s\<lparr>flights := flights s @ [direct_flight hub1 hub2 d],
                 processed_pairs := insert (hub2, hub1) (insert (hub1, hub2) (processed_pairs s))\<rparr>
          else s)"

fun hub_to_hub_pass :: "distance_fn \<Rightarrow> string list \<Rightarrow> gen_state \<Rightarrow> gen_state" where
  \<comment> \<open>\<open>for i, hub1 in enumerate(hubs): for hub2 in hubs[i+1:]\<close>\<close>
  "hub_to_hub_pass gd [] s = s"
| "hub_to_hub_pass gd (hub1 # rest) s =
     hub_to_hub_pass gd rest (fold (hub_pair_step gd hub1) rest s)"

definition airport_hub_step ::
  "distance_fn \<Rightarrow> string \<Rightarrow> string \<Rightarrow> gen_state \<Rightarrow> gen_state" where
  \<comment> \<open>body of the inner loop of pass 2\<close>
  "airport_hub_step gd airport hub s =
     (case gd airport hub of
        None \<Rightarrow> s
      | Some d \<Rightarrow>
          if d \<noteq> 0 \<and> d \<ge> 150
          then s\<lparr>flights := flights s @ [direct_flight airport hub d,
                                          direct_flight hub airport d],
                 processed_pairs :=
                   insert (hub, airport) (insert (airport, hub) (processed_pairs s))\<rparr>
          else s)"

definition airport_step :: "distance_fn \<Rightarrow> string list \<Rightarrow> string \<Rightarrow> gen_state \<Rightarrow> gen_state" where
  \<comment> \<open>body of the outer loop of pass 2\<close>
  "airport_step gd hubs airport s =
     (if airport \<in> set hubs then s else fold (airport_hub_step gd airport) hubs s)"

definition airport_to_hub_pass ::
  "distance_fn \<Rightarrow> string list \<Rightarrow> string list \<Rightarrow> gen_state \<Rightarrow> gen_state" where
  "airport_to_hub_pass gd airports hubs s = fold (airport_step gd hubs) airports s"

definition direct_pair_step ::
  "distance_fn \<Rightarrow> string list \<Rightarrow> string \<Rightarrow> string \<Rightarrow> gen_state \<Rightarrow> gen_state" where
  \<comment> \<open>body of the inner loop of pass 3\<close>
  "direct_pair_step gd hubs orig dest s =
     (if (orig, dest) \<in> processed_pairs s then s
      else if orig \<in> set hubs \<and> dest \<in> set hubs then s
      else if orig \<in> set hubs \<or> dest \<in> set hubs then s
      else case gd orig dest of
             None \<Rightarrow> s
           | Some direct_distance \<Rightarrow>
               if direct_distance \<noteq> 0 \<and> direct_distance \<ge> 150
               then (if should_create_direct_flight gd orig dest direct_distance hubs
                     then s\<lparr>flights := flights s @
                                         [direct_flight orig dest direct_distance,
                                          direct_flight dest orig direct_distance],
                            processed_pairs :=
                              insert (dest, orig) (insert (orig, dest) (processed_pairs s))\<rparr>
                     else s)
               else s)"

fun direct_pass :: "distance_fn \<Rightarrow> string list \<Rightarrow> string list \<Rightarrow> gen_state \<Rightarrow> gen_state" where
  \<comment> \<open>\<open>for i, origin in enumerate(airports): for destination in airports[i+1:]\<close>\<close>
  "direct_pass gd hubs [] s = s"
| "direct_pass gd hubs (orig # rest) s =
     direct_pass gd hubs rest (fold (direct_pair_step gd hubs orig) rest s)"

definition initial_state :: gen_state where
  "initial_state = \<lparr>flights = [], processed_pairs = {}\<rparr>"

definition generate_network :: "distance_fn \<Rightarrow> string list \<Rightarrow> string list \<Rightarrow> gen_state" where
  \<comment> \<open>the three passes of \<open>generate_flight_network\<close>, with the local variables it ends with\<close>
  "generate_network gd airports hubs =
     direct_pass gd hubs airports
       (airport_to_hub_pass gd airports hubs
          (hub_to_hub_pass gd hubs initial_state))"

definition generate_flight_network :: "Flight list" where
  "generate_flight_network = flights (generate_network get_distance_miles US_AIRPORTS MAJOR_HUBS)"

record RouteOption =
  option_type :: string
  option_route :: "string list"
  option_distance :: real
  option_stops :: nat
  option_hub :: "string option"

definition route_hub_step ::
  "string \<Rightarrow> string \<Rightarrow> Flight list \<Rightarrow> string \<Rightarrow> RouteOption list \<Rightarrow> RouteOption list" where
  \<comment> \<open>body of the hub loop of \<open>get_route_options\<close>\<close>
  "route_hub_step orig dest fs hub options =
     (if hub = orig \<or> hub = dest then options
      else let leg1 = filter (\<lambda>f. origin f = orig \<and> destination f = hub) fs;
               leg2 = filter (\<lambda>f. origin f = hub \<and> destination f = dest) fs
           in case (leg1, leg2) of
                (f1 # _, f2 # _) \<Rightarrow>
                  options @ [\<lparr>option_type = ''hub_connection'',
                               option_route = [orig, hub, dest],
                               option_distance = distance f1 + distance f2,
                               option_stops = 1,
                               option_hub = Some hub\<rparr>]
              | _ \<Rightarrow> options)"

definition get_route_options :: "string \<Rightarrow> string \<Rightarrow> Flight list \<Rightarrow> RouteOption list" where
  \<comment> \<open>\<open>list.sort(key=...)\<close> is a stable sort, as \<open>sort_key\<close> is\<close>
  "get_route_options orig dest fs =
     (let direct_flights =
            filter (\<lambda>f. origin f = orig \<and> destination f = dest \<and> is_direct f) fs;
          options0 =
            (case direct_flights of
               [] \<Rightarrow> []
             | f # _ \<Rightarrow> [\<lparr>option_type = ''direct'',
                            option_route = [orig, dest],
                            option_distance = distance f,
                            option_stops = 0,
                            option_hub = None\<rparr>]);
          options = fold (route_hub_step orig dest fs) MAJOR_HUBS options0
      in sort_key option_distance options)"

definition violation_text :: "(real \<Rightarrow> string) \<Rightarrow> Flight \<Rightarrow> string" where
  \<comment> \<open>the f-string of \<open>verify_network_constraints\<close>; \<open>fmt\<close> renders a float with \<open>:.2f\<close>\<close>
  "violation_text fmt f =
     origin f @ '' -> '' @ destination f @ '': '' @ fmt (distance f) @ '' miles''"

definition verify_network_constraints ::
  "(real \<Rightarrow> string) \<Rightarrow> Flight list \<Rightarrow> bool \<times> string list" where
  "verify_network_constraints fmt fs =
     (let violations = map (violation_text fmt) (filter (\<lambda>f. distance f < 150) fs)
      in (length violations = 0, violations))"

section \<open>Notions used in the statements\<close>

text \<open>
  \<open>later_pairs xs\<close> is the set of pairs the nested loops
  \<open>for i, x in enumerate(xs): for y in xs[i+1:]\<close> visit; \<open>edge_pairs fs\<close> is the set of
  endpoint pairs of the flights \<open>fs\<close>, in both orders. Both serve to state properties.
\<close>

fun later_pairs :: "'a list \<Rightarrow> ('a \<times> 'a) set" where
  "later_pairs [] = {}"
| "later_pairs (x # xs) = ({x} \<times> set xs) \<union> later_pairs xs"

definition edge_pairs :: "Flight list \<Rightarrow> (string \<times> string) set" where
  "edge_pairs fs = (\<Union>f \<in> set fs. {(origin f, destination f), (destination f, origin f)})"

text \<open>
  A distance function in which every computed distance of exactly zero is replaced by an
  unresolved result.
\<close>

definition zero_as_unresolved :: "distance_fn \<Rightarrow> distance_fn" where
  "zero_as_unresolved gd a b =
     (case gd a b of None \<Rightarrow> None | Some d \<Rightarrow> if d = 0 then None else Some d)"

section \<open>The haversine formula\<close>

lemma half_one_plus_nonneg: "- 1 \<le> c \<Longrightarrow> 0 \<le> (1 + c) / 2" for c :: real
  by simp

lemma haversine_a_convex:
  fixes lat1 lon1 lat2 lon2 :: real
  defines "s \<equiv> (sin ((radians lon2 - radians lon1) / 2))\<^sup>2"
  defines "c \<equiv> cos (radians lat1 - radians lat2)"
  defines "e \<equiv> cos (radians lat1 + radians lat2)"
  shows "haversine_a lat1 lon1 lat2 lon2 = (1 - s) * ((1 - c) / 2) + s * ((1 + e) / 2)"
proof -
  have h1: "(sin ((radians lat2 - radians lat1) / 2))\<^sup>2 = (1 - c) / 2"
  proof -
    have "cos (2 * ((radians lat2 - radians lat1) / 2))
            = 1 - 2 * (sin ((radians lat2 - radians lat1) / 2))\<^sup>2"
      by (rule cos_double_sin)
    moreover have "2 * ((radians lat2 - radians lat1) / 2) = - (radians lat1 - radians lat2)"
      by simp
    then have "cos (2 * ((radians lat2 - radians lat1) / 2)) = c"
      unfolding c_def by (simp only: cos_minus)
    ultimately show ?thesis by simp
  qed
  have h2: "cos (radians lat1) * cos (radians lat2) = (c + e) / 2"
    unfolding c_def e_def by (rule cos_times_cos)
  show ?thesis
    unfolding haversine_a_def Let_def h1 h2 s_def [symmetric]
    by (simp add: field_simps)
qed

lemma haversine_a_nonneg: "0 \<le> haversine_a lat1 lon1 lat2 lon2"
proof -
  let ?s = "(sin ((radians lon2 - radians lon1) / 2))\<^sup>2"
  let ?c = "cos (radians lat1 - radians lat2)"
  let ?e = "cos (radians lat1 + radians lat2)"
  have s: "0 \<le> ?s" "0 \<le> 1 - ?s"
    using abs_sin_le_one [of "(radians lon2 - radians lon1) / 2"]
    by (simp_all add: abs_square_le_1)
  have e: "0 \<le> (1 + ?e) / 2"
    by (rule half_one_plus_nonneg) (rule cos_ge_minus_one)
  have "0 \<le> (1 - ?s) * ((1 - ?c) / 2)" using s by (intro mult_nonneg_nonneg) simp_all
  moreover have "0 \<le> ?s * ((1 + ?e) / 2)"
    using s e by (intro mult_nonneg_nonneg)
  ultimately show ?thesis by (simp add: haversine_a_convex)
qed

lemma haversine_a_le_one: "haversine_a lat1 lon1 lat2 lon2 \<le> 1"
proof -
  let ?s = "(sin ((radians lon2 - radians lon1) / 2))\<^sup>2"
  let ?c = "cos (radians lat1 - radians lat2)"
  let ?e = "cos (radians lat1 + radians lat2)"
  have s: "0 \<le> ?s" "0 \<le> 1 - ?s"
    using abs_sin_le_one [of "(radians lon2 - radians lon1) / 2"]
    by (simp_all add: abs_square_le_1)
  have c: "0 \<le> (1 + ?c) / 2"
    by (rule half_one_plus_nonneg) (rule cos_ge_minus_one)
  have "0 \<le> (1 - ?s) * ((1 + ?c) / 2)"
    using s c by (intro mult_nonneg_nonneg)
  moreover have "0 \<le> ?s * ((1 - ?e) / 2)" using s by (intro mult_nonneg_nonneg) simp_all
  moreover have "1 - haversine_a lat1 lon1 lat2 lon2
                   = (1 - ?s) * ((1 + ?c) / 2) + ?s * ((1 - ?e) / 2)"
    by (simp add: haversine_a_convex field_simps)
  ultimately show ?thesis by linarith
qed

lemma haversine_a_sym: "haversine_a lat1 lon1 lat2 lon2 = haversine_a lat2 lon2 lat1 lon1"
proof -
  have "sin ((x - y) / 2) ^ 2 = sin ((y - x) / 2) ^ 2" for x y :: real
  proof -
    have "(x - y) / 2 = - ((y - x) / 2)" by (simp add: field_simps)
    then have "sin ((x - y) / 2) = - sin ((y - x) / 2)" by (metis sin_minus)
    then show ?thesis by simp
  qed
  then show ?thesis by (simp add: haversine_a_def Let_def mult.commute)
qed

lemma haversine_distance_sym:
  "haversine_distance lat1 lon1 lat2 lon2 = haversine_distance lat2 lon2 lat1 lon1"
  by (simp add: haversine_distance_def Let_def haversine_a_sym [of lat1 lon1 lat2 lon2])

lemma sqrt_haversine_a_range:
  "0 \<le> sqrt (haversine_a lat1 lon1 lat2 lon2)" "sqrt (haversine_a lat1 lon1 lat2 lon2) \<le> 1"
  using haversine_a_nonneg [of lat1 lon1 lat2 lon2] haversine_a_le_one [of lat1 lon1 lat2 lon2]
  by simp_all

lemma haversine_distance_nonneg: "0 \<le> haversine_distance lat1 lon1 lat2 lon2"
proof -
  have "0 \<le> arcsin (sqrt (haversine_a lat1 lon1 lat2 lon2))"
    using sqrt_haversine_a_range [of lat1 lon1 lat2 lon2] by (intro arcsin_nonneg) simp
  then show ?thesis by (simp add: haversine_distance_def Let_def)
qed

lemma haversine_distance_same_point: "haversine_distance la lo la lo = 0"
  by (simp add: haversine_distance_def haversine_a_def Let_def)

section \<open>Invariants of the generator loops\<close>

lemma fold_preserves:
  assumes "P s" and "\<And>x s. x \<in> set xs \<Longrightarrow> P s \<Longrightarrow> P (f x s)"
  shows "P (fold f xs s)"
  using assms by (induction xs arbitrary: s) simp_all

lemma hub_to_hub_pass_preserves:
  assumes "P s"
    and "\<And>h1 h2 s. (h1, h2) \<in> later_pairs hubs \<Longrightarrow> P s \<Longrightarrow> P (hub_pair_step gd h1 h2 s)"
  shows "P (hub_to_hub_pass gd hubs s)"
  using assms
proof (induction hubs arbitrary: s)
  case Nil
  then show ?case by simp
next
  case (Cons h rest)
  have "P (fold (hub_pair_step gd h) rest s)"
    by (rule fold_preserves [where P = P, OF Cons.prems(1)]) (simp add: Cons.prems(2))
  then have "P (hub_to_hub_pass gd rest (fold (hub_pair_step gd h) rest s))"
    by (rule Cons.IH) (simp add: Cons.prems(2))
  then show ?case by simp
qed

lemma airport_to_hub_pass_preserves:
  assumes "P s"
    and "\<And>a h s. a \<in> set airports \<Longrightarrow> a \<notin> set hubs \<Longrightarrow> h \<in> set hubs \<Longrightarrow> P s
           \<Longrightarrow> P (airport_hub_step gd a h s)"
  shows "P (airport_to_hub_pass gd airports hubs s)"
  unfolding airport_to_hub_pass_def
proof (rule fold_preserves [where P = P, OF assms(1)])
  fix a s
  assume a: "a \<in> set airports" and s: "P s"
  show "P (airport_step gd hubs a s)"
  proof (cases "a \<in> set hubs")
    case True
    then show ?thesis by (simp add: airport_step_def s)
  next
    case False
    have "P (fold (airport_hub_step gd a) hubs s)"
      by (rule fold_preserves [where P = P, OF s]) (simp add: assms(2) a False)
    then show ?thesis by (simp add: airport_step_def False)
  qed
qed

lemma direct_pass_preserves:
  assumes "P s"
    and "\<And>a b s. (a, b) \<in> later_pairs airports \<Longrightarrow> P s \<Longrightarrow> P (direct_pair_step gd hubs a b s)"
  shows "P (direct_pass gd hubs airports s)"
  using assms
proof (induction airports arbitrary: s)
  case Nil
  then show ?case by simp
next
  case (Cons a rest)
  have "P (fold (direct_pair_step gd hubs a) rest s)"
    by (rule fold_preserves [where P = P, OF Cons.prems(1)]) (simp add: Cons.prems(2))
  then have "P (direct_pass gd hubs rest (fold (direct_pair_step gd hubs a) rest s))"
    by (rule Cons.IH) (simp add: Cons.prems(2))
  then show ?case by simp
qed

lemma generate_network_invariant:
  assumes init: "P initial_state"
    and hub: "\<And>h1 h2 s. (h1, h2) \<in> later_pairs hubs \<Longrightarrow> P s \<Longrightarrow> P (hub_pair_step gd h1 h2 s)"
    and spoke: "\<And>a h s. a \<in> set airports \<Longrightarrow> a \<notin> set hubs \<Longrightarrow> h \<in> set hubs \<Longrightarrow> P s
           \<Longrightarrow> P (airport_hub_step gd a h s)"
    and direct: "\<And>a b s. (a, b) \<in> later_pairs airports \<Longrightarrow> P s
           \<Longrightarrow> P (direct_pair_step gd hubs a b s)"
  shows "P (generate_network gd airports hubs)"
  unfolding generate_network_def
proof (rule direct_pass_preserves [where P = P])
  show "P (airport_to_hub_pass gd airports hubs (hub_to_hub_pass gd hubs initial_state))"
  proof (rule airport_to_hub_pass_preserves [where P = P])
    show "P (hub_to_hub_pass gd hubs initial_state)"
      by (rule hub_to_hub_pass_preserves [where P = P, OF init]) (rule hub)
  qed (rule spoke)
qed (rule direct)

lemma flights_hub_pair_step:
  "flights (hub_pair_step gd h1 h2 s) = flights s \<or>
   (\<exists>d. gd h1 h2 = Some d \<and> d \<noteq> 0 \<and> 150 \<le> d \<and>
        hub_pair_step gd h1 h2 s =
          s\<lparr>flights := flights s @ [direct_flight h1 h2 d],
            processed_pairs := insert (h2, h1) (insert (h1, h2) (processed_pairs s))\<rparr>)"
  by (simp add: hub_pair_step_def split: option.splits)

lemma all_distances_ge_150:
  "\<forall>f \<in> set (flights (generate_network gd airports hubs)). 150 \<le> distance f"
proof (rule generate_network_invariant [where P = "\<lambda>s::gen_state. \<forall>f \<in> set (flights s). 150 \<le> distance f"])
  show "\<forall>f \<in> set (flights initial_state). 150 \<le> distance f"
    by (simp add: initial_state_def)
next
  fix h1 h2 and s :: gen_state assume "\<forall>f \<in> set (flights s). 150 \<le> distance f"
  then show "\<forall>f \<in> set (flights (hub_pair_step gd h1 h2 s)). 150 \<le> distance f"
    by (auto simp: hub_pair_step_def direct_flight_def split: option.splits)
next
  fix a h and s :: gen_state assume "\<forall>f \<in> set (flights s). 150 \<le> distance f"
  then show "\<forall>f \<in> set (flights (airport_hub_step gd a h s)). 150 \<le> distance f"
    by (auto simp: airport_hub_step_def direct_flight_def split: option.splits)
next
  fix a b and s :: gen_state assume "\<forall>f \<in> set (flights s). 150 \<le> distance f"
  then show "\<forall>f \<in> set (flights (direct_pair_step gd hubs a b s)). 150 \<le> distance f"
    by (auto simp: direct_pair_step_def direct_flight_def split: option.splits)
qed

lemma processed_eq_edge_pairs:
  "processed_pairs (generate_network gd airports hubs)
     = edge_pairs (flights (generate_network gd airports hubs))"
proof (rule generate_network_invariant [where P = "\<lambda>s::gen_state. processed_pairs s = edge_pairs (flights s)"])
  show "processed_pairs initial_state = edge_pairs (flights initial_state)"
    by (simp add: initial_state_def edge_pairs_def)
next
  fix h1 h2 and s :: gen_state assume "processed_pairs s = edge_pairs (flights s)"
  then show "processed_pairs (hub_pair_step gd h1 h2 s) = edge_pairs (flights (hub_pair_step gd h1 h2 s))"
    by (auto simp: hub_pair_step_def direct_flight_def edge_pairs_def split: option.splits)
next
  fix a h and s :: gen_state assume "processed_pairs s = edge_pairs (flights s)"
  then show "processed_pairs (airport_hub_step gd a h s) = edge_pairs (flights (airport_hub_step gd a h s))"
    by (auto simp: airport_hub_step_def direct_flight_def edge_pairs_def split: option.splits)
next
  fix a b and s :: gen_state assume "processed_pairs s = edge_pairs (flights s)"
  then show "processed_pairs (direct_pair_step gd hubs a b s)
               = edge_pairs (flights (direct_pair_step gd hubs a b s))"
    by (auto simp: direct_pair_step_def direct_flight_def edge_pairs_def split: option.splits)
qed

lemma verify_all_ge_150:
  "\<forall>f \<in> set fs. 150 \<le> distance f \<Longrightarrow> verify_network_constraints fmt fs = (True, [])"
proof -
  assume a: "\<forall>f \<in> set fs. 150 \<le> distance f"
  have "filter (\<lambda>f. distance f < 150) fs = []"
    unfolding filter_empty_conv using a by (simp add: not_less)
  then show ?thesis by (simp add: verify_network_constraints_def)
qed

section \<open>Zero distances and unresolved codes\<close>

lemma hub_step_zero: "hub_step (zero_as_unresolved gd) orig dest = hub_step gd orig dest"
  by (auto simp: hub_step_def zero_as_unresolved_def fun_eq_iff split: option.splits)

lemma calculate_zero:
  "calculate_minimum_distance_through_hubs (zero_as_unresolved gd)
     = calculate_minimum_distance_through_hubs gd"
  by (simp add: calculate_minimum_distance_through_hubs_def hub_step_zero fun_eq_iff)

lemma should_create_zero:
  "should_create_direct_flight (zero_as_unresolved gd) = should_create_direct_flight gd"
  by (simp add: should_create_direct_flight_def calculate_zero fun_eq_iff)

lemma hub_pair_step_zero: "hub_pair_step (zero_as_unresolved gd) = hub_pair_step gd"
  by (auto simp: hub_pair_step_def zero_as_unresolved_def fun_eq_iff split: option.splits)

lemma airport_hub_step_zero: "airport_hub_step (zero_as_unresolved gd) = airport_hub_step gd"
  by (auto simp: airport_hub_step_def zero_as_unresolved_def fun_eq_iff split: option.splits)

lemma direct_pair_step_zero: "direct_pair_step (zero_as_unresolved gd) = direct_pair_step gd"
  by (auto simp: direct_pair_step_def should_create_zero zero_as_unresolved_def fun_eq_iff
      split: option.splits)

lemma hub_to_hub_pass_zero:
  "hub_to_hub_pass (zero_as_unresolved gd) hubs s = hub_to_hub_pass gd hubs s"
  by (induction hubs arbitrary: s) (simp_all add: hub_pair_step_zero)

lemma direct_pass_zero:
  "direct_pass (zero_as_unresolved gd) hubs airports s = direct_pass gd hubs airports s"
  by (induction airports arbitrary: s) (simp_all add: direct_pair_step_zero)

lemma airport_step_zero: "airport_step (zero_as_unresolved gd) = airport_step gd"
  by (simp add: airport_step_def airport_hub_step_zero fun_eq_iff)

lemma generate_network_zero:
  "generate_network (zero_as_unresolved gd) airports hubs = generate_network gd airports hubs"
  by (simp add: generate_network_def hub_to_hub_pass_zero direct_pass_zero
      airport_to_hub_pass_def airport_step_zero)

section \<open>Route options and the search over hubs\<close>

lemma route_hub_step_none:
  assumes "hub = orig \<or> hub = dest \<or>
           \<not> (\<exists>f \<in> set fs. origin f = orig \<and> destination f = hub) \<or>
           \<not> (\<exists>g \<in> set fs. origin g = hub \<and> destination g = dest)"
  shows "route_hub_step orig dest fs hub options = options"
proof -
  have "hub = orig \<or> hub = dest \<or>
        filter (\<lambda>f. origin f = orig \<and> destination f = hub) fs = [] \<or>
        filter (\<lambda>f. origin f = hub \<and> destination f = dest) fs = []"
    using assms unfolding filter_empty_conv by blast
  then show ?thesis
    by (auto simp: route_hub_step_def Let_def split: list.splits)
qed

lemma lower_miles: "lower ''miles'' = ''miles''"
  by (simp add: lower_def lower_char_def)

lemma get_distance_miles_eq:
  "get_distance_miles a b =
     (case get_airport a of
        None \<Rightarrow> None
      | Some x \<Rightarrow>
          (case get_airport b of
             None \<Rightarrow> None
           | Some y \<Rightarrow>
               Some (haversine_distance (latitude x) (longitude x) (latitude y) (longitude y))))"
  by (simp add: get_distance_miles_def get_distance_def Let_def lower_miles split: option.splits)

lemma get_distance_miles_nonneg: "get_distance_miles a b = Some x \<Longrightarrow> 0 \<le> x"
  by (auto simp: get_distance_miles_eq haversine_distance_nonneg split: option.splits)

lemma hub_step_skip:
  assumes "hub = orig \<or> hub = dest \<or>
           \<not> (\<exists>x y. gd orig hub = Some x \<and> x \<noteq> 0 \<and> gd hub dest = Some y \<and> y \<noteq> 0)"
  shows "hub_step gd orig dest hub acc = acc"
  using assms by (auto simp: hub_step_def split: option.splits)

lemma calculate_no_hub:
  assumes "\<forall>h \<in> set hubs. h = orig \<or> h = dest \<or>
           \<not> (\<exists>x y. gd orig h = Some x \<and> x \<noteq> 0 \<and> gd h dest = Some y \<and> y \<noteq> 0)"
  shows "calculate_minimum_distance_through_hubs gd orig dest hubs = (Infinity, None)"
  unfolding calculate_minimum_distance_through_hubs_def
proof (rule fold_preserves [where P = "\<lambda>acc. acc = (Infinity, None)"])
  fix h and acc :: "xfloat \<times> string option"
  assume "h \<in> set hubs" and "acc = (Infinity, None)"
  then show "hub_step gd orig dest h acc = (Infinity, None)"
    using assms hub_step_skip [of h orig dest gd acc] by metis
qed simp

lemma should_create_no_hub:
  assumes "1000 \<le> d"
    and "calculate_minimum_distance_through_hubs gd orig dest hubs = (Infinity, None)"
  shows "should_create_direct_flight gd orig dest d hubs"
  using assms by (simp add: should_create_direct_flight_def)

lemma get_airport_unknown: "get_airport ''XXX'' = None" "get_airport ''YYY'' = None"
  by (simp_all add: get_airport_def AIRPORTS_def AIRPORTS_items_def upper_def upper_char_def)

section \<open>Numeric bounds on the haversine distance\<close>

lemma sin_lower_cubic:
  fixes t :: real
  assumes "0 \<le> t"
  shows "t - t ^ 3 / 6 \<le> sin t"
proof -
  have "\<bar>sin t - (\<Sum>m<3. sin_coeff m * t ^ m)\<bar> \<le> inverse (fact 3) * \<bar>t\<bar> ^ 3"
    by (rule Maclaurin_sin_bound)
  moreover have "(\<Sum>m<3. sin_coeff m * t ^ m) = t"
    by (simp add: sin_coeff_def numeral_3_eq_3)
  moreover have "inverse (fact 3) * \<bar>t\<bar> ^ 3 = t ^ 3 / 6"
    using assms by (simp add: fact_numeral numeral_3_eq_3 field_simps)
  ultimately have "\<bar>sin t - t\<bar> \<le> t ^ 3 / 6" by simp
  then show ?thesis by linarith
qed

lemma arcsin_ge_self:
  fixes y :: real
  assumes "0 \<le> y" "y \<le> 1"
  shows "y \<le> arcsin y"
proof -
  have "0 \<le> arcsin y" using assms by (intro arcsin_nonneg) simp
  then have "sin (arcsin y) \<le> arcsin y" by (rule sin_x_le_x)
  moreover have "sin (arcsin y) = y" using assms by (intro sin_arcsin) simp_all
  ultimately show ?thesis by simp
qed

lemma half_radians_diff_abs:
  "\<bar>(radians y - radians x) / 2\<bar> = pi / 360 * \<bar>y - x\<bar>"
proof -
  have "(radians y - radians x) / 2 = pi / 360 * (y - x)"
    by (simp add: radians_def field_simps)
  then have "\<bar>(radians y - radians x) / 2\<bar> = \<bar>pi / 360\<bar> * \<bar>y - x\<bar>"
    by (simp only: abs_mult)
  moreover have "\<bar>pi / 360\<bar> = pi / 360" by simp
  ultimately show ?thesis by (simp only:)
qed

lemma sin_sq_abs: "(sin x)\<^sup>2 = (sin \<bar>x\<bar>)\<^sup>2" for x :: real
  by (cases "0 \<le> x") (simp_all add: abs_real_def)

lemma haversine_distance_lower_bound:
  assumes lat1: "0 \<le> lat1" "lat1 \<le> 45" and lat2: "0 \<le> lat2" "lat2 \<le> 45"
    and lon: "12 \<le> \<bar>lon2 - lon1\<bar>" "\<bar>lon2 - lon1\<bar> \<le> 13"
  shows "150 \<le> haversine_distance lat1 lon1 lat2 lon2"
proof -
  let ?a = "haversine_a lat1 lon1 lat2 lon2"
  define t where "t = \<bar>(radians lon2 - radians lon1) / 2\<bar>"
  have pi2: "2 \<le> pi" "pi \<le> 4" using pi_ge_two pi_less_4 by simp_all
  have cos_lat: "sqrt 2 / 2 \<le> cos (radians lat)" if "0 \<le> lat" "lat \<le> 45" for lat :: real
  proof -
    have "0 \<le> radians lat" using that by (simp add: radians_def)
    moreover have "radians lat \<le> pi / 4" using that by (simp add: radians_def field_simps)
    moreover have "pi / 4 \<le> pi" by simp
    ultimately have "cos (pi / 4) \<le> cos (radians lat)" by (intro cos_monotone_0_pi_le)
    then show ?thesis by (simp add: cos_45)
  qed
  have s2pos: "0 \<le> sqrt 2 / 2" by simp
  have "0 \<le> cos (radians lat1)" using cos_lat [OF lat1] s2pos by linarith
  then have "sqrt 2 / 2 * (sqrt 2 / 2) \<le> cos (radians lat1) * cos (radians lat2)"
    using cos_lat [OF lat1] cos_lat [OF lat2] s2pos by (intro mult_mono)
  then have cc: "1 / 2 \<le> cos (radians lat1) * cos (radians lat2)" by simp
  have t_eq: "t = pi / 360 * \<bar>lon2 - lon1\<bar>"
    unfolding t_def by (rule half_radians_diff_abs)
  have t_lo: "1 / 15 \<le> t"
  proof -
    have "2 / 360 * 12 \<le> pi / 360 * \<bar>lon2 - lon1\<bar>"
      using lon(1) pi2(1) by (intro mult_mono) simp_all
    then show ?thesis unfolding t_eq by simp
  qed
  have t_hi: "t \<le> 13 / 90"
  proof -
    have "pi / 360 * \<bar>lon2 - lon1\<bar> \<le> 4 / 360 * 13"
      using lon(2) pi2(2) by (intro mult_mono) simp_all
    then show ?thesis unfolding t_eq by simp
  qed
  have t0: "0 \<le> t" using t_lo by simp
  have "t ^ 3 \<le> (13 / 90) ^ 3" using t0 t_hi by (rule power_mono [OF _ _, rotated]) 
  then have "t - t ^ 3 / 6 \<ge> 3 / 50" using t_lo by (simp add: power3_eq_cube)
  then have sin_t: "3 / 50 \<le> sin t" using sin_lower_cubic [OF t0] by linarith
  have "(3 / 50)\<^sup>2 \<le> (sin t)\<^sup>2" using sin_t by (intro power_mono) simp_all
  then have s2: "9 / 2500 \<le> (sin ((radians lon2 - radians lon1) / 2))\<^sup>2"
    unfolding t_def sin_sq_abs [of "(radians lon2 - radians lon1) / 2"]
    by (simp add: power2_eq_square)
  have "1 / 2 * (9 / 2500) \<le> cos (radians lat1) * cos (radians lat2)
          * (sin ((radians lon2 - radians lon1) / 2))\<^sup>2"
    using cc s2 by (intro mult_mono) simp_all
  moreover have "0 \<le> (sin ((radians lat2 - radians lat1) / 2))\<^sup>2" by simp
  ultimately have a_lo: "9 / 5000 \<le> ?a"
    unfolding haversine_a_def Let_def by linarith
  have "sqrt ((1 / 25)\<^sup>2) \<le> sqrt ?a"
    using a_lo by (intro real_sqrt_le_mono) (simp add: power2_eq_square)
  then have r_lo: "1 / 25 \<le> sqrt ?a" by simp
  have "sqrt ?a \<le> arcsin (sqrt ?a)"
    using sqrt_haversine_a_range [of lat1 lon1 lat2 lon2] by (intro arcsin_ge_self)
  then have "1 / 25 \<le> arcsin (sqrt ?a)" using r_lo by linarith
  then show ?thesis by (simp add: haversine_distance_def Let_def)
qed

lemma haversine_distance_upper_bound:
  assumes lat: "\<bar>lat2 - lat1\<bar> \<le> 1 / 2" and lon: "\<bar>lon2 - lon1\<bar> \<le> 1 / 2"
  shows "haversine_distance lat1 lon1 lat2 lon2 < 150"
proof -
  let ?a = "haversine_a lat1 lon1 lat2 lon2"
  have pi4: "pi \<le> 4" using pi_less_4 by simp
  have half: "(sin ((radians y - radians x) / 2))\<^sup>2 \<le> 1 / 32400"
    if "\<bar>y - x\<bar> \<le> 1 / 2" for x y :: real
  proof -
    have eq: "\<bar>(radians y - radians x) / 2\<bar> = pi / 360 * \<bar>y - x\<bar>"
      by (rule half_radians_diff_abs)
    have "pi / 360 * \<bar>y - x\<bar> \<le> 4 / 360 * (1 / 2)"
      using that pi4 by (intro mult_mono) simp_all
    then have u: "\<bar>(radians y - radians x) / 2\<bar> \<le> 1 / 180" unfolding eq by simp
    have "\<bar>sin ((radians y - radians x) / 2)\<bar> \<le> 1 / 180"
      using abs_sin_x_le_abs_x [of "(radians y - radians x) / 2"] u by linarith
    then have "\<bar>sin ((radians y - radians x) / 2)\<bar>\<^sup>2 \<le> (1 / 180)\<^sup>2"
      by (intro power_mono) simp_all
    then show ?thesis by (simp add: power2_eq_square)
  qed
  have cc: "cos (radians lat1) * cos (radians lat2) \<le> 1"
  proof -
    have "\<bar>cos (radians lat1) * cos (radians lat2)\<bar> \<le> 1 * 1"
      unfolding abs_mult by (intro mult_mono) simp_all
    then show ?thesis by linarith
  qed
  have "cos (radians lat1) * cos (radians lat2) * (sin ((radians lon2 - radians lon1) / 2))\<^sup>2
          \<le> 1 * (sin ((radians lon2 - radians lon1) / 2))\<^sup>2"
    using cc by (intro mult_right_mono) simp_all
  then have a_hi: "?a \<le> 1 / 16200"
    unfolding haversine_a_def Let_def using half [OF lat] half [OF lon] by linarith
  have "sqrt ?a \<le> sqrt ((1 / 100)\<^sup>2)"
    using a_hi by (intro real_sqrt_le_mono) (simp add: power2_eq_square)
  then have r_hi: "sqrt ?a \<le> 1 / 100" by simp
  have "(1 / 60 :: real) - (1 / 60) ^ 3 / 6 \<le> sin (1 / 60)"
    by (rule sin_lower_cubic) simp
  then have "1 / 100 \<le> sin (1 / 60 :: real)" by (simp add: power3_eq_cube)
  then have le_sin: "sqrt ?a \<le> sin (1 / 60)" using r_hi by linarith
  have b1: "- 1 \<le> sqrt ?a" "sqrt ?a \<le> 1"
    using sqrt_haversine_a_range [of lat1 lon1 lat2 lon2] by linarith+
  have b2: "- pi / 2 \<le> 1 / 60" "(1 / 60 :: real) \<le> pi / 2"
    using pi_ge_two by simp_all
  have "arcsin (sqrt ?a) \<le> 1 / 60"
    using le_sin by (simp only: arcsin_le_iff [OF b1 b2])
  then show ?thesis by (simp add: haversine_distance_def Let_def)
qed

section \<open>Which edges the passes create\<close>

lemma fold_establishes:
  assumes "x \<in> set xs" and "\<And>s. Q (f x s)" and "\<And>y s. Q s \<Longrightarrow> Q (f y s)"
  shows "Q (fold f xs s)"
  using assms(1)
proof (induction xs arbitrary: s)
  case Nil
  then show ?case by simp
next
  case (Cons y ys)
  show ?case
  proof (cases "x = y")
    case True
    have "Q (f y s)" using assms(2) True by simp
    then have "Q (fold f ys (f y s))"
      by (rule fold_preserves [where P = Q]) (rule assms(3))
    then show ?thesis by simp
  next
    case False
    then have "x \<in> set ys" using Cons.prems by simp
    then show ?thesis using Cons.IH by simp
  qed
qed

lemma hub_pair_step_keeps: "f \<in> set (flights s) \<Longrightarrow> f \<in> set (flights (hub_pair_step gd h1 h2 s))"
  by (simp add: hub_pair_step_def split: option.splits)

lemma airport_hub_step_keeps:
  "f \<in> set (flights s) \<Longrightarrow> f \<in> set (flights (airport_hub_step gd a h s))"
  by (simp add: airport_hub_step_def split: option.splits)

lemma direct_pair_step_keeps:
  "f \<in> set (flights s) \<Longrightarrow> f \<in> set (flights (direct_pair_step gd hubs a b s))"
  by (simp add: direct_pair_step_def split: option.splits)

lemma hub_pair_step_adds:
  "gd h1 h2 = Some d \<Longrightarrow> 150 \<le> d \<Longrightarrow>
     direct_flight h1 h2 d \<in> set (flights (hub_pair_step gd h1 h2 s))"
  by (simp add: hub_pair_step_def)

lemma hub_to_hub_pass_adds:
  assumes "(h1, h2) \<in> later_pairs hubs" "gd h1 h2 = Some d" "150 \<le> d"
  shows "direct_flight h1 h2 d \<in> set (flights (hub_to_hub_pass gd hubs s))"
  using assms(1)
proof (induction hubs arbitrary: s)
  case Nil
  then show ?case by simp
next
  case (Cons h rest)
  let ?Q = "\<lambda>s :: gen_state. direct_flight h1 h2 d \<in> set (flights s)"
  show ?case
  proof (cases "(h1, h2) \<in> later_pairs rest")
    case True
    then show ?thesis using Cons.IH by simp
  next
    case False
    then have h: "h1 = h" "h2 \<in> set rest" using Cons.prems by auto
    have "?Q (fold (hub_pair_step gd h) rest s)"
    proof (rule fold_establishes [where Q = ?Q and x = h2])
      show "h2 \<in> set rest" by (rule h(2))
      show "?Q (hub_pair_step gd h h2 s)" for s
        using hub_pair_step_adds [where gd = gd and ?h1.0 = h1 and ?h2.0 = h2 and d = d and s = s]
          assms(2,3) h(1) by simp
      show "?Q s \<Longrightarrow> ?Q (hub_pair_step gd h y s)" for y s
        by (rule hub_pair_step_keeps)
    qed
    then have "?Q (hub_to_hub_pass gd rest (fold (hub_pair_step gd h) rest s))"
      by (rule hub_to_hub_pass_preserves [where P = ?Q]) (rule hub_pair_step_keeps)
    then show ?thesis by simp
  qed
qed

lemma forward_hub_edge_present:
  assumes "(h1, h2) \<in> later_pairs hubs" "gd h1 h2 = Some d" "150 \<le> d"
  shows "direct_flight h1 h2 d \<in> set (flights (generate_network gd airports hubs))"
proof -
  let ?Q = "\<lambda>s :: gen_state. direct_flight h1 h2 d \<in> set (flights s)"
  have "?Q (hub_to_hub_pass gd hubs initial_state)"
    using assms
    by (rule hub_to_hub_pass_adds [where gd = gd and ?h1.0 = h1 and ?h2.0 = h2 and d = d])
  then have "?Q (airport_to_hub_pass gd airports hubs (hub_to_hub_pass gd hubs initial_state))"
    by (rule airport_to_hub_pass_preserves [where P = ?Q]) (rule airport_hub_step_keeps)
  then show ?thesis
    unfolding generate_network_def
    by (rule direct_pass_preserves [where P = ?Q]) (rule direct_pair_step_keeps)
qed

lemma hub_hub_edges_forward:
  "\<forall>f \<in> set (flights (generate_network gd airports hubs)).
      origin f \<in> set hubs \<and> destination f \<in> set hubs
        \<longrightarrow> (origin f, destination f) \<in> later_pairs hubs"
proof (rule generate_network_invariant [where P = "\<lambda>s::gen_state. \<forall>f \<in> set (flights s).
      origin f \<in> set hubs \<and> destination f \<in> set hubs
        \<longrightarrow> (origin f, destination f) \<in> later_pairs hubs"])
  show "\<forall>f \<in> set (flights initial_state).
      origin f \<in> set hubs \<and> destination f \<in> set hubs
        \<longrightarrow> (origin f, destination f) \<in> later_pairs hubs"
    by (simp add: initial_state_def)
next
  fix h1 h2 and s :: gen_state
  assume "(h1, h2) \<in> later_pairs hubs"
    and "\<forall>f \<in> set (flights s). origin f \<in> set hubs \<and> destination f \<in> set hubs
        \<longrightarrow> (origin f, destination f) \<in> later_pairs hubs"
  then show "\<forall>f \<in> set (flights (hub_pair_step gd h1 h2 s)).
      origin f \<in> set hubs \<and> destination f \<in> set hubs
        \<longrightarrow> (origin f, destination f) \<in> later_pairs hubs"
    by (auto simp: hub_pair_step_def direct_flight_def split: option.splits)
next
  fix a h and s :: gen_state
  assume "a \<notin> set hubs"
    and "\<forall>f \<in> set (flights s). origin f \<in> set hubs \<and> destination f \<in> set hubs
        \<longrightarrow> (origin f, destination f) \<in> later_pairs hubs"
  then show "\<forall>f \<in> set (flights (airport_hub_step gd a h s)).
      origin f \<in> set hubs \<and> destination f \<in> set hubs
        \<longrightarrow> (origin f, destination f) \<in> later_pairs hubs"
    by (auto simp: airport_hub_step_def direct_flight_def split: option.splits)
next
  fix a b and s :: gen_state
  assume "\<forall>f \<in> set (flights s). origin f \<in> set hubs \<and> destination f \<in> set hubs
        \<longrightarrow> (origin f, destination f) \<in> later_pairs hubs"
  then show "\<forall>f \<in> set (flights (direct_pair_step gd hubs a b s)).
      origin f \<in> set hubs \<and> destination f \<in> set hubs
        \<longrightarrow> (origin f, destination f) \<in> later_pairs hubs"
    by (auto simp: direct_pair_step_def direct_flight_def split: option.splits if_splits)
qed

lemma flights_distance_from_gd:
  "\<forall>f \<in> set (flights (generate_network gd airports hubs)).
      gd (origin f) (destination f) = Some (distance f) \<or>
      gd (destination f) (origin f) = Some (distance f)"
proof (rule generate_network_invariant [where P = "\<lambda>s::gen_state. \<forall>f \<in> set (flights s).
      gd (origin f) (destination f) = Some (distance f) \<or>
      gd (destination f) (origin f) = Some (distance f)"])
  show "\<forall>f \<in> set (flights initial_state).
      gd (origin f) (destination f) = Some (distance f) \<or>
      gd (destination f) (origin f) = Some (distance f)"
    by (simp add: initial_state_def)
next
  fix h1 h2 and s :: gen_state
  assume "\<forall>f \<in> set (flights s).
      gd (origin f) (destination f) = Some (distance f) \<or>
      gd (destination f) (origin f) = Some (distance f)"
  then show "\<forall>f \<in> set (flights (hub_pair_step gd h1 h2 s)).
      gd (origin f) (destination f) = Some (distance f) \<or>
      gd (destination f) (origin f) = Some (distance f)"
    by (auto simp: hub_pair_step_def direct_flight_def split: option.splits)
next
  fix a h and s :: gen_state
  assume "\<forall>f \<in> set (flights s).
      gd (origin f) (destination f) = Some (distance f) \<or>
      gd (destination f) (origin f) = Some (distance f)"
  then show "\<forall>f \<in> set (flights (airport_hub_step gd a h s)).
      gd (origin f) (destination f) = Some (distance f) \<or>
      gd (destination f) (origin f) = Some (distance f)"
    by (auto simp: airport_hub_step_def direct_flight_def split: option.splits)
next
  fix a b and s :: gen_state
  assume "\<forall>f \<in> set (flights s).
      gd (origin f) (destination f) = Some (distance f) \<or>
      gd (destination f) (origin f) = Some (distance f)"
  then show "\<forall>f \<in> set (flights (direct_pair_step gd hubs a b s)).
      gd (origin f) (destination f) = Some (distance f) \<or>
      gd (destination f) (origin f) = Some (distance f)"
    by (auto simp: direct_pair_step_def direct_flight_def split: option.splits if_splits)
qed

lemma get_airport_ATL: "get_airport ''ATL'' = Some (mk_airport ''ATL''
    ''Hartsfield-Jackson Atlanta International Airport''
    ''Atlanta'' ''GA'' 33.6407 (- 84.4277) ''Metro Atlanta'')"
  by (simp add: get_airport_def AIRPORTS_def AIRPORTS_items_def upper_def upper_char_def)

lemma get_airport_DFW: "get_airport ''DFW'' = Some (mk_airport ''DFW''
    ''Dallas/Fort Worth International Airport''
    ''Dallas and Fort Worth'' ''TX'' 32.8998 (- 97.0403) (''Dallas'' @ en_dash @ ''Fort Worth''))"
  by (simp add: get_airport_def AIRPORTS_def AIRPORTS_items_def upper_def upper_char_def)

lemma get_airport_JFK: "get_airport ''JFK'' = Some (mk_airport ''JFK''
    ''John F. Kennedy International Airport''
    ''New York City'' ''NY'' 40.6413 (- 73.7781) ''New York Metro'')"
  by (simp add: get_airport_def AIRPORTS_def AIRPORTS_items_def upper_def upper_char_def)

lemma get_airport_LGA: "get_airport ''LGA'' = Some (mk_airport ''LGA'' ''LaGuardia Airport''
    ''New York City'' ''NY'' 40.7769 (- 73.8740) ''New York Metro'')"
  by (simp add: get_airport_def AIRPORTS_def AIRPORTS_items_def upper_def upper_char_def)

lemma distance_ATL_DFW:
  "get_distance_miles ''ATL'' ''DFW''
     = Some (haversine_distance 33.6407 (- 84.4277) 32.8998 (- 97.0403))"
  "150 \<le> haversine_distance 33.6407 (- 84.4277) 32.8998 (- 97.0403)"
proof -
  show "get_distance_miles ''ATL'' ''DFW''
     = Some (haversine_distance 33.6407 (- 84.4277) 32.8998 (- 97.0403))"
    by (simp add: get_distance_miles_eq get_airport_ATL get_airport_DFW mk_airport_def)
  show "150 \<le> haversine_distance 33.6407 (- 84.4277) 32.8998 (- 97.0403)"
    by (rule haversine_distance_lower_bound) simp_all
qed

lemma distance_JFK_LGA:
  "get_distance_miles ''JFK'' ''LGA''
     = Some (haversine_distance 40.6413 (- 73.7781) 40.7769 (- 73.8740))"
  "get_distance_miles ''LGA'' ''JFK''
     = Some (haversine_distance 40.7769 (- 73.8740) 40.6413 (- 73.7781))"
  "haversine_distance 40.6413 (- 73.7781) 40.7769 (- 73.8740) < 150"
  "haversine_distance 40.7769 (- 73.8740) 40.6413 (- 73.7781) < 150"
proof -
  show "get_distance_miles ''JFK'' ''LGA''
     = Some (haversine_distance 40.6413 (- 73.7781) 40.7769 (- 73.8740))"
    by (simp add: get_distance_miles_eq get_airport_JFK get_airport_LGA mk_airport_def)
  show "get_distance_miles ''LGA'' ''JFK''
     = Some (haversine_distance 40.7769 (- 73.8740) 40.6413 (- 73.7781))"
    by (simp add: get_distance_miles_eq get_airport_JFK get_airport_LGA mk_airport_def)
  show "haversine_distance 40.6413 (- 73.7781) 40.7769 (- 73.8740) < 150"
    by (rule haversine_distance_upper_bound) simp_all
  show "haversine_distance 40.7769 (- 73.8740) 40.6413 (- 73.7781) < 150"
    by (rule haversine_distance_upper_bound) simp_all
qed

lemma later_pairs_subset: "(a, b) \<in> later_pairs xs \<Longrightarrow> a \<in> set xs \<and> b \<in> set xs"
  by (induction xs) auto

lemma processed_non_hub_pairs_accepted:
  "\<forall>p \<in> processed_pairs (generate_network gd airports hubs).
      fst p \<notin> set hubs \<and> snd p \<notin> set hubs \<longrightarrow>
      (\<exists>d. 150 \<le> d \<and>
           (gd (fst p) (snd p) = Some d \<and> should_create_direct_flight gd (fst p) (snd p) d hubs \<or>
            gd (snd p) (fst p) = Some d \<and> should_create_direct_flight gd (snd p) (fst p) d hubs))"
  (is "?P (generate_network gd airports hubs)")
proof (rule generate_network_invariant [where P = ?P])
  show "?P initial_state" by (simp add: initial_state_def)
next
  fix h1 h2 and s :: gen_state
  assume h: "(h1, h2) \<in> later_pairs hubs" and s: "?P s"
  have "h1 \<in> set hubs" "h2 \<in> set hubs" using later_pairs_subset [OF h] by simp_all
  then show "?P (hub_pair_step gd h1 h2 s)"
    using s by (auto simp: hub_pair_step_def split: option.splits)
next
  fix a h and s :: gen_state
  assume "h \<in> set hubs" and s: "?P s"
  then show "?P (airport_hub_step gd a h s)"
    by (auto simp: airport_hub_step_def split: option.splits)
next
  fix a b and s :: gen_state
  assume s: "?P s"
  show "?P (direct_pair_step gd hubs a b s)"
  proof (cases "direct_pair_step gd hubs a b s = s")
    case True
    then show ?thesis using s by simp
  next
    case False
    then obtain d where d: "gd a b = Some d" "150 \<le> d"
      "should_create_direct_flight gd a b d hubs"
      and eq: "processed_pairs (direct_pair_step gd hubs a b s)
                 = insert (b, a) (insert (a, b) (processed_pairs s))"
      by (auto simp: direct_pair_step_def split: option.splits if_splits)
    show ?thesis unfolding eq using s d by auto
  qed
qed

section \<open>Claims on the distance calculator\<close>

text \<open>
  Claim C7. \<open>get_distance\<close> returns \<open>None\<close> if and only if at least one of the two codes does
  not resolve in the catalog; when both resolve it returns the haversine distance in miles,
  multiplied by 1.60934 when the lower-cased unit string is \<open>kilometers\<close> or \<open>km\<close>.
\<close>

theorem get_distance_none_iff_unresolved: 
  "(get_distance iata1 iata2 unit = None \<longleftrightarrow> get_airport iata1 = None \<or> get_airport iata2 = None) \<and>
   (\<forall>airport1 airport2. get_airport iata1 = Some airport1 \<longrightarrow> get_airport iata2 = Some airport2 \<longrightarrow>
      get_distance iata1 iata2 unit =
        Some (if lower unit = ''kilometers'' \<or> lower unit = ''km''
              then haversine_distance (latitude airport1) (longitude airport1)
                     (latitude airport2) (longitude airport2) * 1.60934
              else haversine_distance (latitude airport1) (longitude airport1)
                     (latitude airport2) (longitude airport2)))"
proof (cases "get_airport iata1")
  case None
  then show ?thesis by (simp add: get_distance_def)
next
  case a1: (Some airport1)
  show ?thesis
  proof (cases "get_airport iata2")
    case None
    with a1 show ?thesis by (simp add: get_distance_def)
  next
    case a2: (Some airport2)
    have eq: "get_distance iata1 iata2 unit =
                Some (if lower unit = ''kilometers'' \<or> lower unit = ''km''
                      then haversine_distance (latitude airport1) (longitude airport1)
                             (latitude airport2) (longitude airport2) * 1.60934
                      else haversine_distance (latitude airport1) (longitude airport1)
                             (latitude airport2) (longitude airport2))"
      by (simp add: get_distance_def Let_def a1 a2)
    show ?thesis by (simp only: eq a1 a2) simp
  qed
qed

theorem get_distance_none_iff_unresolved_witness:
  "get_distance ''atl'' ''JFK'' ''Km'' =
     Some (haversine_distance 33.6407 (- 84.4277) 40.6413 (- 73.7781) * 1.60934) \<and>
   get_distance ''ATL'' ''JFK'' ''miles'' =
     Some (haversine_distance 33.6407 (- 84.4277) 40.6413 (- 73.7781)) \<and>
   get_distance ''ATL'' ''XYZ'' ''km'' = None"
proof -
  have a: "get_airport ''atl'' = Some (mk_airport ''ATL''
              ''Hartsfield-Jackson Atlanta International Airport''
              ''Atlanta'' ''GA'' 33.6407 (- 84.4277) ''Metro Atlanta'')"
    by (simp add: get_airport_def AIRPORTS_def AIRPORTS_items_def upper_def upper_char_def)
  have a': "get_airport ''ATL'' = Some (mk_airport ''ATL''
              ''Hartsfield-Jackson Atlanta International Airport''
              ''Atlanta'' ''GA'' 33.6407 (- 84.4277) ''Metro Atlanta'')"
    by (simp add: get_airport_def AIRPORTS_def AIRPORTS_items_def upper_def upper_char_def)
  have j: "get_airport ''JFK'' = Some (mk_airport ''JFK''
              ''John F. Kennedy International Airport''
              ''New York City'' ''NY'' 40.6413 (- 73.7781) ''New York Metro'')"
    by (simp add: get_airport_def AIRPORTS_def AIRPORTS_items_def upper_def upper_char_def)
  have x: "get_airport ''XYZ'' = None"
    by (simp add: get_airport_def AIRPORTS_def AIRPORTS_items_def upper_def upper_char_def)
  have l: "lower ''Km'' = ''km''" "lower ''miles'' = ''miles''"
    by (simp_all add: lower_def lower_char_def)
  show ?thesis
    using get_distance_none_iff_unresolved [of "''atl''" "''JFK''" "''Km''"] get_distance_none_iff_unresolved [of "''ATL''" "''JFK''" "''miles''"]
      get_distance_none_iff_unresolved [of "''ATL''" "''XYZ''" "''km''"]
    by (simp add: a a' j x l mk_airport_def)
qed

text \<open>
  Claim C8. \<open>haversine_distance\<close> is symmetric in its two points, and so
  \<open>get_distance A B\<close> equals \<open>get_distance B A\<close> for all codes and every unit (for
  unresolved codes both sides are \<open>None\<close>).
\<close>

theorem haversine_distance_symmetric:
  "haversine_distance lat1 lon1 lat2 lon2 = haversine_distance lat2 lon2 lat1 lon1 \<and>
   get_distance A B unit = get_distance B A unit"
proof
  show "haversine_distance lat1 lon1 lat2 lon2 = haversine_distance lat2 lon2 lat1 lon1"
    by (rule haversine_distance_sym)
  show "get_distance A B unit = get_distance B A unit"
    by (simp add: get_distance_def Let_def haversine_distance_sym split: option.splits)
qed

section \<open>Claims on the network generator\<close>

text \<open>
  Claim C3. Every flight in the list \<open>generate_flight_network\<close> returns has a distance of at
  least 150 miles, and \<open>verify_network_constraints\<close> applied to that list returns
  \<open>(True, [])\<close>. Both hold for every distance function and every pair of lists, and so for
  the shipped catalog.
\<close>

theorem generated_edges_at_least_150:
  "(\<forall>f \<in> set (flights (generate_network gd airports hubs)). 150 \<le> distance f) \<and>
   verify_network_constraints fmt (flights (generate_network gd airports hubs)) = (True, []) \<and>
   (\<forall>f \<in> set generate_flight_network. 150 \<le> distance f) \<and>
   verify_network_constraints fmt generate_flight_network = (True, [])"
  unfolding generate_flight_network_def
  using all_distances_ge_150 verify_all_ge_150 by blast

theorem generated_edges_at_least_150_witness:
  "direct_flight ''JFK'' ''ATL'' 200
      \<in> set (flights (generate_network (\<lambda>a b. Some 200) [''JFK''] [''ATL''])) \<and>
   150 \<le> distance (direct_flight ''JFK'' ''ATL'' 200) \<and>
   verify_network_constraints (\<lambda>x. ''200.00'')
      (flights (generate_network (\<lambda>a b. Some 200) [''JFK''] [''ATL''])) = (True, [])"
  using generated_edges_at_least_150 [of "\<lambda>a b. Some 200" "[''JFK'']" "[''ATL'']" "\<lambda>x. ''200.00''"]
  by (simp add: generate_network_def initial_state_def airport_to_hub_pass_def airport_step_def
      airport_hub_step_def direct_flight_def)

text \<open>
  Claim C10. A computed distance of exactly zero, which two entries at the same coordinates
  give, is treated by the generator as an unresolved code is: replacing every zero distance
  by \<open>None\<close> changes neither the search for the shortest hub route nor the generated state;
  a hub with a zero leg leaves \<open>(min_distance, best_hub)\<close> as it was, and a pair at distance
  zero adds no flight and no processed pair in any of the three passes.
\<close>

theorem zero_distance_treated_as_unresolved:
  "haversine_distance la lo la lo = 0 \<and>
   calculate_minimum_distance_through_hubs (zero_as_unresolved gd) orig dest hubs
     = calculate_minimum_distance_through_hubs gd orig dest hubs \<and>
   generate_network (zero_as_unresolved gd) airports hubs = generate_network gd airports hubs \<and>
   (gd orig hub = Some 0 \<or> gd hub dest = Some 0 \<longrightarrow> hub_step gd orig dest hub acc = acc) \<and>
   (gd a b = Some 0 \<longrightarrow>
      hub_pair_step gd a b s = s \<and> airport_hub_step gd a b s = s \<and>
      direct_pair_step gd hubs a b s = s)"
proof -
  have "hub_step gd orig dest hub acc = acc" if "gd orig hub = Some 0 \<or> gd hub dest = Some 0"
    using that by (auto simp: hub_step_def split: option.splits)
  moreover have "hub_pair_step gd a b s = s \<and> airport_hub_step gd a b s = s \<and>
      direct_pair_step gd hubs a b s = s" if "gd a b = Some 0"
    using that by (simp add: hub_pair_step_def airport_hub_step_def direct_pair_step_def)
  ultimately show ?thesis
    by (simp add: haversine_distance_same_point calculate_zero generate_network_zero)
qed

theorem zero_distance_treated_as_unresolved_witness:
  "hub_step (\<lambda>a b. if a = ''LAX'' \<and> b = ''DEN'' then Some 0 else Some 900)
      ''LAX'' ''JFK'' ''DEN'' (Infinity, None) = (Infinity, None) \<and>
   hub_step (\<lambda>a b. if a = ''LAX'' \<and> b = ''DEN'' then Some 0 else Some 900)
      ''LAX'' ''JFK'' ''ORD'' (Infinity, None) = (Finite 1800, Some ''ORD'') \<and>
   hub_pair_step (\<lambda>a b. Some 0) ''ATL'' ''DFW'' initial_state = initial_state \<and>
   airport_hub_step (\<lambda>a b. Some 0) ''JFK'' ''ATL'' initial_state = initial_state \<and>
   direct_pair_step (\<lambda>a b. Some 0) MAJOR_HUBS ''JFK'' ''LGA'' initial_state = initial_state"
  using
    zero_distance_treated_as_unresolved [where gd = "\<lambda>a b. if a = ''LAX'' \<and> b = ''DEN'' then Some 0 else Some 900"
      and orig = "''LAX''" and dest = "''JFK''" and hub = "''DEN''" and acc = "(Infinity, None)"]
    zero_distance_treated_as_unresolved [where gd = "\<lambda>a b. Some 0" and a = "''ATL''" and b = "''DFW''" and s = initial_state]
    zero_distance_treated_as_unresolved [where gd = "\<lambda>a b. Some 0" and a = "''JFK''" and b = "''ATL''" and s = initial_state]
    zero_distance_treated_as_unresolved [where gd = "\<lambda>a b. Some 0" and a = "''JFK''" and b = "''LGA''" and s = initial_state
      and hubs = MAJOR_HUBS]
  by (simp add: hub_step_def)

section \<open>Claims on the route planner and on the direct-flight rule\<close>

text \<open>
  Claim C6. For every origin, destination and flight list, \<open>get_route_options\<close> returns a
  list sorted ascending by total distance, and it returns the empty list when the flights
  hold no direct edge from origin to destination and no hub other than the two offers
  both legs.
\<close>

theorem route_options_sorted:
  "sorted (map option_distance (get_route_options orig dest fs)) \<and>
   (\<not> (\<exists>f \<in> set fs. origin f = orig \<and> destination f = dest \<and> is_direct f) \<and>
    \<not> (\<exists>h \<in> set MAJOR_HUBS. h \<noteq> orig \<and> h \<noteq> dest \<and>
          (\<exists>f \<in> set fs. origin f = orig \<and> destination f = h) \<and>
          (\<exists>g \<in> set fs. origin g = h \<and> destination g = dest))
    \<longrightarrow> get_route_options orig dest fs = [])"
proof (intro conjI impI)
  show "sorted (map option_distance (get_route_options orig dest fs))"
    by (simp add: get_route_options_def Let_def sorted_sort_key)
next
  assume a: "\<not> (\<exists>f \<in> set fs. origin f = orig \<and> destination f = dest \<and> is_direct f) \<and>
    \<not> (\<exists>h \<in> set MAJOR_HUBS. h \<noteq> orig \<and> h \<noteq> dest \<and>
          (\<exists>f \<in> set fs. origin f = orig \<and> destination f = h) \<and>
          (\<exists>g \<in> set fs. origin g = h \<and> destination g = dest))"
  have d: "filter (\<lambda>f. origin f = orig \<and> destination f = dest \<and> is_direct f) fs = []"
    unfolding filter_empty_conv using a by blast
  have "fold (route_hub_step orig dest fs) MAJOR_HUBS [] = []"
  proof (rule fold_preserves [where P = "\<lambda>os. os = []"])
    fix h and os :: "RouteOption list"
    assume h: "h \<in> set MAJOR_HUBS" and os: "os = []"
    have "route_hub_step orig dest fs h os = os"
      by (rule route_hub_step_none) (use a h in blast)
    then show "route_hub_step orig dest fs h os = []" using os by simp
  qed simp
  then show "get_route_options orig dest fs = []"
    by (simp add: get_route_options_def Let_def d)
qed

theorem route_options_sorted_witness:
  "get_route_options ''LAX'' ''JFK'' [direct_flight ''JFK'' ''LAX'' 2475] = [] \<and>
   map option_distance
     (get_route_options ''LAX'' ''JFK''
        [direct_flight ''LAX'' ''JFK'' 3000, direct_flight ''LAX'' ''DEN'' 862,
         direct_flight ''DEN'' ''JFK'' 1626]) = [2488, 3000]"
proof -
  have "get_route_options ''LAX'' ''JFK'' [direct_flight ''JFK'' ''LAX'' 2475] = []"
    using route_options_sorted [where fs = "[direct_flight ''JFK'' ''LAX'' 2475]" and orig = "''LAX''"
        and dest = "''JFK''"]
    by (simp add: direct_flight_def MAJOR_HUBS_def)
  moreover have "map option_distance
     (get_route_options ''LAX'' ''JFK''
        [direct_flight ''LAX'' ''JFK'' 3000, direct_flight ''LAX'' ''DEN'' 862,
         direct_flight ''DEN'' ''JFK'' 1626]) = [2488, 3000]"
    by (simp add: get_route_options_def route_hub_step_def direct_flight_def MAJOR_HUBS_def
        Let_def)
  ultimately show ?thesis by simp
qed

text \<open>
  Claim C1, as the code has it. For every pair whose direct distance is at least 1000 miles
  and for which no hub other than the origin or destination yields two resolvable positive
  leg distances, \<open>calculate_minimum_distance_through_hubs\<close> returns \<open>(inf, None)\<close> and
  \<open>should_create_direct_flight\<close> returns \<open>True\<close>: infinity is positive, so the ratio is the
  direct distance over infinity, which is 0 and passes the test \<open>\<le> 0.85\<close>. The default
  ratio 1.0 is taken only for a hub distance that is not positive.
\<close>

theorem no_hub_path_creates_direct:
  assumes "1000 \<le> d"
    and "\<forall>h \<in> set hubs. h = orig \<or> h = dest \<or>
           \<not> (\<exists>x y. get_distance_miles orig h = Some x \<and> 0 < x \<and>
                      get_distance_miles h dest = Some y \<and> 0 < y)"
  shows "calculate_minimum_distance_through_hubs get_distance_miles orig dest hubs
           = (Infinity, None) \<and>
         should_create_direct_flight get_distance_miles orig dest d hubs = True"
proof -
  have "\<forall>h \<in> set hubs. h = orig \<or> h = dest \<or>
           \<not> (\<exists>x y. get_distance_miles orig h = Some x \<and> x \<noteq> 0 \<and>
                      get_distance_miles h dest = Some y \<and> y \<noteq> 0)"
  proof
    fix h assume h: "h \<in> set hubs"
    have "0 < x \<and> 0 < y"
      if "get_distance_miles orig h = Some x" "x \<noteq> 0"
         "get_distance_miles h dest = Some y" "y \<noteq> 0" for x y
      using that get_distance_miles_nonneg [of orig h x] get_distance_miles_nonneg [of h dest y]
      by simp
    then show "h = orig \<or> h = dest \<or>
           \<not> (\<exists>x y. get_distance_miles orig h = Some x \<and> x \<noteq> 0 \<and>
                      get_distance_miles h dest = Some y \<and> y \<noteq> 0)"
      using assms(2) h by blast
  qed
  then have c: "calculate_minimum_distance_through_hubs get_distance_miles orig dest hubs
           = (Infinity, None)"
    by (rule calculate_no_hub)
  show ?thesis using c should_create_no_hub [OF assms(1) c] by simp
qed

theorem no_hub_path_creates_direct_witness:
  "calculate_minimum_distance_through_hubs get_distance_miles ''XXX'' ''YYY'' MAJOR_HUBS
     = (Infinity, None) \<and>
   should_create_direct_flight get_distance_miles ''XXX'' ''YYY'' 2000 MAJOR_HUBS = True"
proof -
  have "get_distance_miles ''XXX'' h = None" for h
    by (simp add: get_distance_miles_def get_distance_def get_airport_unknown)
  then show ?thesis
    using no_hub_path_creates_direct [where d = 2000 and hubs = MAJOR_HUBS and orig = "''XXX''" and dest = "''YYY''"]
    by simp
qed

text \<open>
  Claim C1 as stated fails: with the hub list made of the origin and the destination only,
  or with no hub at all, no hub qualifies, the search returns \<open>(inf, None)\<close>, and the direct
  flight of 2475 miles is accepted.
\<close>

theorem no_hub_path_rejects_direct_counterexample:
  "calculate_minimum_distance_through_hubs get_distance_miles ''LAX'' ''JFK'' [''LAX'', ''JFK'']
     = (Infinity, None) \<and>
   should_create_direct_flight get_distance_miles ''LAX'' ''JFK'' 2475 [''LAX'', ''JFK''] = True \<and>
   should_create_direct_flight get_distance_miles ''LAX'' ''JFK'' 2475 [] = True"
  by (simp add: should_create_direct_flight_def calculate_minimum_distance_through_hubs_def
      hub_step_def)

section \<open>Claims on the hub-to-hub pass and on the processed pairs\<close>

text \<open>
  Claim C2 asks for an edge in each direction between every two hubs at least 150 miles
  apart. On the shipped catalog the hub pass appends the edge from the earlier hub of
  \<open>MAJOR_HUBS\<close> to the later one only: Atlanta and Dallas/Fort Worth are more than 150 miles
  apart, the generated list holds the edge ATL to DFW, and it holds no edge DFW to ATL.
\<close>

theorem hub_pair_reverse_edge_missing:
  "(\<exists>d. get_distance ''ATL'' ''DFW'' ''miles'' = Some d \<and> 150 \<le> d \<and>
        direct_flight ''ATL'' ''DFW'' d \<in> set generate_flight_network) \<and>
   \<not> (\<exists>f \<in> set generate_flight_network. origin f = ''DFW'' \<and> destination f = ''ATL'')"
proof
  have "(''ATL'', ''DFW'') \<in> later_pairs MAJOR_HUBS" by (simp add: MAJOR_HUBS_def)
  then have "direct_flight ''ATL'' ''DFW'' (haversine_distance 33.6407 (- 84.4277) 32.8998 (- 97.0403))
               \<in> set generate_flight_network"
    unfolding generate_flight_network_def
    using distance_ATL_DFW
    by (rule forward_hub_edge_present [where gd = get_distance_miles and ?h1.0 = "''ATL''"
          and ?h2.0 = "''DFW''"])
  then show "\<exists>d. get_distance ''ATL'' ''DFW'' ''miles'' = Some d \<and> 150 \<le> d \<and>
        direct_flight ''ATL'' ''DFW'' d \<in> set generate_flight_network"
    using distance_ATL_DFW by (auto simp: get_distance_miles_def)
next
  have n: "(''DFW'', ''ATL'') \<notin> later_pairs MAJOR_HUBS" by (simp add: MAJOR_HUBS_def)
  have m: "''DFW'' \<in> set MAJOR_HUBS" "''ATL'' \<in> set MAJOR_HUBS" by (simp_all add: MAJOR_HUBS_def)
  show "\<not> (\<exists>f \<in> set generate_flight_network. origin f = ''DFW'' \<and> destination f = ''ATL'')"
  proof
    assume "\<exists>f \<in> set generate_flight_network. origin f = ''DFW'' \<and> destination f = ''ATL''"
    then obtain f where f: "f \<in> set generate_flight_network" "origin f = ''DFW''"
      "destination f = ''ATL''" by blast
    have "f \<in> set (flights (generate_network get_distance_miles US_AIRPORTS MAJOR_HUBS))"
      using f(1) by (simp add: generate_flight_network_def)
    then have "origin f \<in> set MAJOR_HUBS \<and> destination f \<in> set MAJOR_HUBS
        \<longrightarrow> (origin f, destination f) \<in> later_pairs MAJOR_HUBS"
      using hub_hub_edges_forward by blast
    then show False using f(2,3) m n by simp
  qed
qed

text \<open>
  Claim C4, as the code has it. In the direct pass a pair that is not yet processed is added
  to \<open>processed_pairs\<close> exactly when the two direct edges are appended for it. When the
  distance is unresolved, when the distance check skips the pair (distance below 150) or
  when \<open>should_create_direct_flight\<close> rejects it, the step leaves the flights and
  \<open>processed_pairs\<close> unchanged; when a pair of two non-hub airports that is not yet
  processed passes both tests, the step appends the two edges and adds both orders of the
  pair. At the end of generation \<open>processed_pairs\<close> is the set of endpoint pairs, in both
  orders, of the flights created, and a pair of two non-hub airports is in it only if, in
  one of its two orders, its distance is at least 150 and \<open>should_create_direct_flight\<close>
  accepts it.
\<close>

theorem processed_iff_edge_created:
  "processed_pairs (generate_network gd airports hubs)
     = edge_pairs (flights (generate_network gd airports hubs)) \<and>
   ((orig, dest) \<notin> processed_pairs s \<longrightarrow>
      ((orig, dest) \<in> processed_pairs (direct_pair_step gd hubs orig dest s) \<longleftrightarrow>
         (\<exists>d. flights (direct_pair_step gd hubs orig dest s)
                = flights s @ [direct_flight orig dest d, direct_flight dest orig d])) \<and>
      ((orig, dest) \<notin> processed_pairs (direct_pair_step gd hubs orig dest s) \<longrightarrow>
         direct_pair_step gd hubs orig dest s = s)) \<and>
   (gd orig dest = None \<or>
    (\<exists>d. gd orig dest = Some d \<and>
         (d < 150 \<or> \<not> should_create_direct_flight gd orig dest d hubs))
      \<longrightarrow> direct_pair_step gd hubs orig dest s = s) \<and>
   ((orig, dest) \<notin> processed_pairs s \<and> orig \<notin> set hubs \<and> dest \<notin> set hubs \<and>
    gd orig dest = Some dd \<and> 150 \<le> dd \<and> should_create_direct_flight gd orig dest dd hubs
      \<longrightarrow> direct_pair_step gd hubs orig dest s =
            s\<lparr>flights := flights s @ [direct_flight orig dest dd, direct_flight dest orig dd],
              processed_pairs := insert (dest, orig) (insert (orig, dest) (processed_pairs s))\<rparr>) \<and>
   ((a, b) \<in> processed_pairs (generate_network gd airports hubs) \<and>
    a \<notin> set hubs \<and> b \<notin> set hubs
      \<longrightarrow> (\<exists>d. 150 \<le> d \<and>
             (gd a b = Some d \<and> should_create_direct_flight gd a b d hubs \<or>
              gd b a = Some d \<and> should_create_direct_flight gd b a d hubs)))"
proof (intro conjI impI)
  show "processed_pairs (generate_network gd airports hubs)
     = edge_pairs (flights (generate_network gd airports hubs))"
    by (rule processed_eq_edge_pairs)
next
  assume "(orig, dest) \<notin> processed_pairs s"
  then show "(orig, dest) \<in> processed_pairs (direct_pair_step gd hubs orig dest s) \<longleftrightarrow>
         (\<exists>d. flights (direct_pair_step gd hubs orig dest s)
                = flights s @ [direct_flight orig dest d, direct_flight dest orig d])"
    by (auto simp: direct_pair_step_def split: option.splits)
next
  assume "(orig, dest) \<notin> processed_pairs s"
    and "(orig, dest) \<notin> processed_pairs (direct_pair_step gd hubs orig dest s)"
  then show "direct_pair_step gd hubs orig dest s = s"
    by (auto simp: direct_pair_step_def split: option.splits if_splits)
next
  assume "gd orig dest = None \<or>
    (\<exists>d. gd orig dest = Some d \<and>
         (d < 150 \<or> \<not> should_create_direct_flight gd orig dest d hubs))"
  then show "direct_pair_step gd hubs orig dest s = s"
    by (auto simp: direct_pair_step_def)
next
  assume "(orig, dest) \<notin> processed_pairs s \<and> orig \<notin> set hubs \<and> dest \<notin> set hubs \<and>
    gd orig dest = Some dd \<and> 150 \<le> dd \<and> should_create_direct_flight gd orig dest dd hubs"
  then show "direct_pair_step gd hubs orig dest s =
            s\<lparr>flights := flights s @ [direct_flight orig dest dd, direct_flight dest orig dd],
              processed_pairs := insert (dest, orig) (insert (orig, dest) (processed_pairs s))\<rparr>"
    by (simp add: direct_pair_step_def)
next
  assume "(a, b) \<in> processed_pairs (generate_network gd airports hubs) \<and>
    a \<notin> set hubs \<and> b \<notin> set hubs"
  then show "\<exists>d. 150 \<le> d \<and>
             (gd a b = Some d \<and> should_create_direct_flight gd a b d hubs \<or>
              gd b a = Some d \<and> should_create_direct_flight gd b a d hubs)"
    using processed_non_hub_pairs_accepted [of gd airports hubs] by fastforce
qed

theorem processed_iff_edge_created_witness:
  "direct_pair_step (\<lambda>a b. Some 10) [''ATL''] ''JFK'' ''LGA'' initial_state = initial_state \<and>
   direct_pair_step (\<lambda>a b. if a = ''ATL'' \<or> b = ''ATL'' then Some 550 else Some 1000)
      [''ATL''] ''LAX'' ''JFK'' initial_state = initial_state \<and>
   direct_pair_step (\<lambda>a b. Some 200) [''ATL''] ''JFK'' ''BOS'' initial_state =
     \<lparr>flights = [direct_flight ''JFK'' ''BOS'' 200, direct_flight ''BOS'' ''JFK'' 200],
      processed_pairs = {(''BOS'', ''JFK''), (''JFK'', ''BOS'')}\<rparr> \<and>
   (''JFK'', ''BOS'') \<in> processed_pairs
      (direct_pair_step (\<lambda>a b. Some 200) [''ATL''] ''JFK'' ''BOS'' initial_state)"
proof -
  have 1: "direct_pair_step (\<lambda>a b. Some 10) [''ATL''] ''JFK'' ''LGA'' initial_state
             = initial_state"
    using processed_iff_edge_created [where gd = "\<lambda>a b. Some 10" and hubs = "[''ATL'']" and orig = "''JFK''"
        and dest = "''LGA''" and s = initial_state]
    by simp
  have r: "\<not> should_create_direct_flight
              (\<lambda>a b. if a = ''ATL'' \<or> b = ''ATL'' then Some 550 else Some 1000)
              ''LAX'' ''JFK'' 1000 [''ATL'']"
    by (simp add: should_create_direct_flight_def calculate_minimum_distance_through_hubs_def
        hub_step_def)
  have 2: "direct_pair_step (\<lambda>a b. if a = ''ATL'' \<or> b = ''ATL'' then Some 550 else Some 1000)
      [''ATL''] ''LAX'' ''JFK'' initial_state = initial_state"
    using processed_iff_edge_created [where gd = "\<lambda>a b. if a = ''ATL'' \<or> b = ''ATL'' then Some 550 else Some 1000"
        and hubs = "[''ATL'']" and orig = "''LAX''" and dest = "''JFK''" and s = initial_state] r
    by simp
  have c: "should_create_direct_flight (\<lambda>a b. Some 200) ''JFK'' ''BOS'' 200 [''ATL'']"
    by (simp add: should_create_direct_flight_def)
  have 3: "direct_pair_step (\<lambda>a b. Some 200) [''ATL''] ''JFK'' ''BOS'' initial_state =
     \<lparr>flights = [direct_flight ''JFK'' ''BOS'' 200, direct_flight ''BOS'' ''JFK'' 200],
      processed_pairs = {(''BOS'', ''JFK''), (''JFK'', ''BOS'')}\<rparr>"
    using processed_iff_edge_created [where gd = "\<lambda>a b. Some 200" and hubs = "[''ATL'']" and orig = "''JFK''"
        and dest = "''BOS''" and s = initial_state and dd = 200] c
    by (simp add: initial_state_def)
  show ?thesis using 1 2 3 by simp
qed

text \<open>
  Claim C4 as stated fails on the shipped catalog. The pair JFK and LGA is evaluated by the direct pass (both are
  non-hub airports, JFK comes first in \<open>US_AIRPORTS\<close>), the distance check skips it, and it
  is not in \<open>processed_pairs\<close> when generation ends.
\<close>

theorem rejected_pair_not_processed_counterexample:
  "(''JFK'', ''LGA'') \<in> later_pairs US_AIRPORTS \<and>
   ''JFK'' \<notin> set MAJOR_HUBS \<and> ''LGA'' \<notin> set MAJOR_HUBS \<and>
   (''JFK'', ''LGA'') \<notin> processed_pairs (generate_network get_distance_miles US_AIRPORTS MAJOR_HUBS)"
proof -
  let ?s = "generate_network get_distance_miles US_AIRPORTS MAJOR_HUBS"
  have "(''JFK'', ''LGA'') \<notin> edge_pairs (flights ?s)"
  proof
    assume "(''JFK'', ''LGA'') \<in> edge_pairs (flights ?s)"
    then obtain f where f: "f \<in> set (flights ?s)"
      and e: "origin f = ''JFK'' \<and> destination f = ''LGA'' \<or>
              origin f = ''LGA'' \<and> destination f = ''JFK''"
      by (auto simp: edge_pairs_def)
    have "150 \<le> distance f" using all_distances_ge_150 f by blast
    moreover have "get_distance_miles (origin f) (destination f) = Some (distance f) \<or>
      get_distance_miles (destination f) (origin f) = Some (distance f)"
      using flights_distance_from_gd f by blast
    ultimately show False using e distance_JFK_LGA by auto
  qed
  then have "(''JFK'', ''LGA'') \<notin> processed_pairs ?s"
    by (simp add: processed_eq_edge_pairs)
  moreover have "(''JFK'', ''LGA'') \<in> later_pairs US_AIRPORTS"
    by (simp add: US_AIRPORTS_def)
  ultimately show ?thesis by (simp add: MAJOR_HUBS_def)
qed

end
